theory Spec2Isabelle
  imports Main
begin

section \<open>Qt values used by the command window\<close>

text \<open>
  \<open>QString\<close> and \<open>QByteArray\<close> are both sequences of characters here; the conversions
  between them (\<open>toUtf8\<close> at the call site, the implicit \<open>fromUtf8\<close> of
  \<open>QString::append(QByteArray)\<close>) are the identity on the text.
  A \<open>QDateTime\<close> is the number of milliseconds since the epoch, an unbounded integer:
  the 64-bit range of Qt is far from any wall-clock reading.
\<close>

type_synonym QString = string
type_synonym QByteArray = string
type_synonym QDateTime = int

definition msecsTo :: "QDateTime \<Rightarrow> QDateTime \<Rightarrow> int" where
  \<comment> \<open>\<open>a.msecsTo(b)\<close>: the milliseconds from \<open>a\<close> to \<open>b\<close>, negative when \<open>b\<close> is earlier.\<close>
  "msecsTo a b = b - a"

definition addDays :: "QDateTime \<Rightarrow> int \<Rightarrow> QDateTime" where
  \<comment> \<open>\<open>t.addDays(n)\<close>, a day being 24 hours (no daylight-saving shift between the two).\<close>
  "addDays t n = t + n * 86400000"

subsection \<open>QVariant and the settings store\<close>

datatype QVariant = VInt int | VString QString

fun digitValue :: "char \<Rightarrow> nat option" where
  "digitValue c =
     (let n = (of_char c :: nat)
      in if 48 \<le> n \<and> n \<le> 57 then Some (n - 48) else None)"

fun toUInt :: "nat \<Rightarrow> QString \<Rightarrow> nat option" where
  "toUInt acc [] = Some acc"
| "toUInt acc (c # cs) =
     (case digitValue c of None \<Rightarrow> None | Some d \<Rightarrow> toUInt (10 * acc + d) cs)"

definition inIntRange :: "int \<Rightarrow> int option" where
  "inIntRange n = (if - 2147483648 \<le> n \<and> n \<le> 2147483647 then Some n else None)"

fun toInt :: "QString \<Rightarrow> int option" where
  \<comment> \<open>\<open>QString::toInt(&ok)\<close> in base 10: an optional sign and digits, within 32 bits;
      \<open>None\<close> is \<open>ok == false\<close>. (Qt also skips white space around the number; the
      one string the window converts is \<open>"0"\<close>.)\<close>
  "toInt [] = None"
| "toInt (c # cs) =
     (if c = CHR ''-'' then
        (case cs of [] \<Rightarrow> None
         | _ \<Rightarrow> (case toUInt 0 cs of None \<Rightarrow> None | Some n \<Rightarrow> inIntRange (- int n)))
      else if c = CHR ''+'' then
        (case cs of [] \<Rightarrow> None
         | _ \<Rightarrow> (case toUInt 0 cs of None \<Rightarrow> None | Some n \<Rightarrow> inIntRange (int n)))
      else (case toUInt 0 (c # cs) of None \<Rightarrow> None | Some n \<Rightarrow> inIntRange (int n)))"

fun digitChar :: "nat \<Rightarrow> char" where
  "digitChar d = ''0123456789'' ! (d mod 10)"

function number_nat :: "nat \<Rightarrow> QString" where
  \<comment> \<open>the decimal digits of a number, most significant first\<close>
  "number_nat n = (if n < 10 then [digitChar n] else number_nat (n div 10) @ [digitChar n])"
  by pat_completeness auto
termination
  by (relation "measure id") auto

declare number_nat.simps [simp del]

definition QString_number :: "int \<Rightarrow> QString" where
  \<comment> \<open>\<open>QString::number(n)\<close>, base 10.\<close>
  "QString_number n = (if n < 0 then CHR ''-'' # number_nat (nat (- n)) else number_nat (nat n))"

fun QVariant_eq :: "QVariant \<Rightarrow> QVariant \<Rightarrow> bool" where
  \<comment> \<open>\<open>operator==\<close> of QVariant: values of one type are compared as such; otherwise
      the right operand is converted to the type of the left one, and a failed
      conversion makes the two unequal.\<close>
  "QVariant_eq (VInt a) (VInt b) = (a = b)"
| "QVariant_eq (VString a) (VString b) = (a = b)"
| "QVariant_eq (VInt a) (VString b) = (case toInt b of None \<Rightarrow> False | Some n \<Rightarrow> a = n)"
| "QVariant_eq (VString a) (VInt b) = (a = QString_number b)"

type_synonym QSettings = "QString \<rightharpoonup> QVariant"

definition QSettings_value :: "QSettings \<Rightarrow> QString \<Rightarrow> QVariant \<Rightarrow> QVariant" where
  \<comment> \<open>\<open>QSettings::value(key, defaultValue)\<close>\<close>
  "QSettings_value st key dflt = (case st key of None \<Rightarrow> dflt | Some v \<Rightarrow> v)"

subsection \<open>QString::arg\<close>

text \<open>
  \<open>s.arg(a)\<close> replaces every occurrence of the lowest-numbered place marker of \<open>s\<close>
  by \<open>a\<close>. A place marker is \<open>%\<close>, an optional \<open>L\<close>, and one or two digits; a string
  without a marker is returned as it is. The scan below walks the string once, as
  \<open>findArgEscapes\<close> of Qt does, and keeps each marker with its number and its own text.
  (With \<open>L\<close> Qt writes a number in the locale's form; the format of the window has no
  such marker.)
\<close>

datatype piece = Lit char | Marker nat QString

datatype scan = Text | Pct | PctL | Digit nat QString

fun findArgEscapes :: "scan \<Rightarrow> QString \<Rightarrow> piece list" where
  "findArgEscapes Text [] = []"
| "findArgEscapes Pct [] = [Lit CHR ''%'']"
| "findArgEscapes PctL [] = [Lit CHR ''%'', Lit CHR ''L'']"
| "findArgEscapes (Digit n t) [] = [Marker n t]"
| "findArgEscapes Text (c # cs) =
     (if c = CHR ''%'' then findArgEscapes Pct cs else Lit c # findArgEscapes Text cs)"
| "findArgEscapes Pct (c # cs) =
     (if c = CHR ''L'' then findArgEscapes PctL cs
      else case digitValue c of
             Some d \<Rightarrow> findArgEscapes (Digit d [CHR ''%'', c]) cs
           | None \<Rightarrow>
               (if c = CHR ''%'' then Lit CHR ''%'' # findArgEscapes Pct cs
                else Lit CHR ''%'' # Lit c # findArgEscapes Text cs))"
| "findArgEscapes PctL (c # cs) =
     (case digitValue c of
        Some d \<Rightarrow> findArgEscapes (Digit d [CHR ''%'', CHR ''L'', c]) cs
      | None \<Rightarrow>
          (if c = CHR ''%'' then Lit CHR ''%'' # Lit CHR ''L'' # findArgEscapes Pct cs
           else Lit CHR ''%'' # Lit CHR ''L'' # Lit c # findArgEscapes Text cs))"
| "findArgEscapes (Digit n t) (c # cs) =
     (case digitValue c of
        Some d \<Rightarrow> Marker (10 * n + d) (t @ [c]) # findArgEscapes Text cs
      | None \<Rightarrow>
          (if c = CHR ''%'' then Marker n t # findArgEscapes Pct cs
           else Marker n t # Lit c # findArgEscapes Text cs))"

fun escapes :: "piece list \<Rightarrow> nat list" where
  "escapes [] = []"
| "escapes (Lit c # ps) = escapes ps"
| "escapes (Marker n t # ps) = n # escapes ps"

fun replaceArgEscapes :: "nat \<Rightarrow> QString \<Rightarrow> piece list \<Rightarrow> QString" where
  "replaceArgEscapes m a [] = []"
| "replaceArgEscapes m a (Lit c # ps) = c # replaceArgEscapes m a ps"
| "replaceArgEscapes m a (Marker n t # ps) =
     (if n = m then a else t) @ replaceArgEscapes m a ps"

definition QString_arg :: "QString \<Rightarrow> QString \<Rightarrow> QString" where
  "QString_arg s a =
     (let ps = findArgEscapes Text s in
      case escapes ps of
        [] \<Rightarrow> s
      | n # ns \<Rightarrow> replaceArgEscapes (fold min ns n) a ps)"

section \<open>Collaborators of the command window\<close>

subsection \<open>Server\<close>

text \<open>
  Modelled from the spec: the class \<open>Server\<close> is declared outside the two source files.
  The window reads its \<open>getIp()\<close> and \<open>getPort()\<close>; the rcon client is built from the
  server alone, so the shared-secret password of the spec travels in it.
\<close>

record Server =
  getIp :: QString
  getPort :: nat
  getRconPassword :: QString

subsection \<open>Out-of-band framing and transport\<close>

datatype error = MalformedFrame

definition marker :: QByteArray where
  \<comment> \<open>Modelled from the spec: the 4-byte prefix \<open>0xFFFFFFFF\<close> of every datagram.\<close>
  "marker = [CHR 0xFF, CHR 0xFF, CHR 0xFF, CHR 0xFF]"

definition frame :: "QByteArray \<Rightarrow> QByteArray" where
  \<comment> \<open>Modelled from the spec: \<open>Framing.frame\<close>, missing from the source files; it wraps
      a payload in the out-of-band prefix.\<close>
  "frame payload = marker @ payload"

definition unframe :: "QByteArray \<Rightarrow> error + QByteArray" where
  \<comment> \<open>Modelled from the spec: \<open>Framing.unframe\<close>, missing from the source files; it fails
      if the prefix is absent or the datagram is shorter than 4 bytes.\<close>
  "unframe datagram =
     (if length datagram < 4 then Inl MalformedFrame
      else if take 4 datagram \<noteq> marker then Inl MalformedFrame
      else Inr (drop 4 datagram))"

record Transport =
  peerHost :: QString
  peerPort :: nat
  datagrams :: "QByteArray list"

definition Transport_send :: "Transport \<Rightarrow> QByteArray \<Rightarrow> Transport" where
  \<comment> \<open>Modelled from the spec: \<open>Transport.send\<close> prepends the marker and writes one
      datagram to the fixed peer; \<open>datagrams\<close> lists what went out, oldest first.\<close>
  "Transport_send t payload = t\<lparr>datagrams := datagrams t @ [frame payload]\<rparr>"

subsection \<open>Rcon and Query\<close>

record Rcon =
  rconServer :: Server
  rconTransport :: Transport

definition Rcon_new :: "Server \<Rightarrow> Rcon" where
  \<comment> \<open>Modelled from the spec: \<open>new Rcon(std::move(server))\<close>, a client with its own
      socket to the server's host and port, nothing sent yet.\<close>
  "Rcon_new server =
     \<lparr>rconServer = server,
      rconTransport = \<lparr>peerHost = getIp server, peerPort = getPort server, datagrams = []\<rparr>\<rparr>"

definition Rcon_send :: "Rcon \<Rightarrow> QByteArray \<Rightarrow> Rcon" where
  \<comment> \<open>Modelled from the spec: \<open>Rcon::send\<close>, missing from the source files; the payload
      is \<open>rcon <password> <command>\<close>.\<close>
  "Rcon_send r command =
     r\<lparr>rconTransport :=
         Transport_send (rconTransport r)
           (''rcon '' @ getRconPassword (rconServer r) @ '' '' @ command)\<rparr>"

record Query =
  queryTransport :: Transport

definition Query_new :: "QString \<Rightarrow> nat \<Rightarrow> Query" where
  \<comment> \<open>Modelled from the spec: \<open>new Query(ip, port)\<close>, a client with its own socket,
      nothing sent yet.\<close>
  "Query_new ip port =
     \<lparr>queryTransport = \<lparr>peerHost = ip, peerPort = port, datagrams = []\<rparr>\<rparr>"

definition Query_send :: "Query \<Rightarrow> QByteArray \<Rightarrow> Query" where
  \<comment> \<open>Modelled from the spec: \<open>Query::send\<close>, missing from the source files; the payload
      goes out framed, on the query client's own socket.\<close>
  "Query_send q payload = q\<lparr>queryTransport := Transport_send (queryTransport q) payload\<rparr>"

subsection \<open>Files\<close>

text \<open>
  The file system holds the text of each existing file. \<open>refused\<close> is the set of
  names the operating system will not open (permissions, a missing directory);
  \<open>handles\<close> lists the open handles and \<open>journal\<close> every file operation issued, oldest
  first, so that "no file I/O" can be told from "an open that failed".
\<close>

datatype OpenModeFlag = ReadOnly | WriteOnly | Append | Truncate

datatype FileOp =
    Opened QString "OpenModeFlag list"
  | OpenFailed QString "OpenModeFlag list"
  | Written QString QString
  | Closed QString

record FileSystem =
  files :: "QString \<rightharpoonup> QString"
  refused :: "QString set"
  handles :: "QString list"
  journal :: "FileOp list"

definition truncates :: "OpenModeFlag list \<Rightarrow> bool" where
  \<comment> \<open>\<open>QIODevice::OpenMode\<close>: \<open>WriteOnly\<close> implies \<open>Truncate\<close> unless it is combined
      with \<open>ReadOnly\<close> or \<open>Append\<close>.\<close>
  "truncates mode =
     (Truncate \<in> set mode \<or>
      (WriteOnly \<in> set mode \<and> ReadOnly \<notin> set mode \<and> Append \<notin> set mode))"

definition QFile_open :: "QString \<Rightarrow> OpenModeFlag list \<Rightarrow> FileSystem \<Rightarrow> bool \<times> FileSystem" where
  \<comment> \<open>\<open>QFile::open(mode)\<close>: fails when the system refuses the name, or when a file that
      does not exist is opened without \<open>WriteOnly\<close>; otherwise the file exists afterwards,
      emptied only in a truncating mode.\<close>
  "QFile_open name mode fsys =
     (if name \<in> refused fsys \<or> (WriteOnly \<notin> set mode \<and> files fsys name = None)
      then (False, fsys\<lparr>journal := journal fsys @ [OpenFailed name mode]\<rparr>)
      else (True,
            fsys\<lparr>files := (files fsys)(name \<mapsto>
                     (if truncates mode then []
                      else case files fsys name of None \<Rightarrow> [] | Some text \<Rightarrow> text)),
                 handles := name # handles fsys,
                 journal := journal fsys @ [Opened name mode]\<rparr>))"

definition QTextStream_write :: "QString \<Rightarrow> QString \<Rightarrow> FileSystem \<Rightarrow> FileSystem" where
  \<comment> \<open>\<open>out << line\<close> on a stream over a file opened with \<open>Append\<close>: the text goes to
      the end of the file when the stream is flushed, at the end of its block.\<close>
  "QTextStream_write name line fsys =
     fsys\<lparr>files := (files fsys)(name \<mapsto>
              (case files fsys name of None \<Rightarrow> [] | Some text \<Rightarrow> text) @ line),
          journal := journal fsys @ [Written name line]\<rparr>"

definition QFile_close :: "QString \<Rightarrow> FileSystem \<Rightarrow> FileSystem" where
  \<comment> \<open>the destructor of an open \<open>QFile\<close>\<close>
  "QFile_close name fsys =
     fsys\<lparr>handles := remove1 name (handles fsys),
          journal := journal fsys @ [Closed name]\<rparr>"

section \<open>The command window\<close>

text \<open>
  The fields of \<open>CommandWindow\<close> that the rate limiter, the transcript log and the two
  protocol clients use, together with the file system the process writes to. The
  text widget \<open>ui->commandOutput\<close> is the list of fragments inserted at its end. Window
  layout, the player table, the timers and the completer (which only reads
  \<open>commands.txt\<close>) are left out. The settings are the store that \<open>QSettings\<close> loaded
  from \<open>preferences.ini\<close>; the window only reads it.
\<close>

record CommandWindow =
  lastCommand :: QDateTime
  logFileName :: QString
  preferences :: QSettings
  status :: Query
  rcon :: Rcon
  commandOutput :: "QString list"
  fs :: FileSystem

definition logFileNameFormat :: QString where
  "logFileNameFormat = ''log_%1_%2.log''"

definition CommandWindow_new :: "Server \<Rightarrow> QSettings \<Rightarrow> QDateTime \<Rightarrow> FileSystem \<Rightarrow> CommandWindow" where
  \<comment> \<open>the constructor, run at \<open>now\<close> (\<open>QDateTime::currentDateTime()\<close>) with the settings
      read from \<open>preferences.ini\<close>\<close>
  "CommandWindow_new server settings now fsys =
     \<lparr>lastCommand = addDays now (- 1),
      logFileName =
        QString_arg (QString_arg logFileNameFormat (getIp server))
          (QString_number (int (getPort server))),
      preferences = settings,
      status = Query_new (getIp server) (getPort server),
      rcon = Rcon_new server,
      commandOutput = [],
      fs = fsys\<rparr>"

definition writeToLog :: "CommandWindow \<Rightarrow> QString \<Rightarrow> CommandWindow" where
  "writeToLog w line =
     (if QVariant_eq (QSettings_value (preferences w) ''logging_enabled'' (VInt 1)) (VString ''0'')
      then w
      else
        (case QFile_open (logFileName w) [WriteOnly, Append] (fs w) of
           (True, opened) \<Rightarrow>
             w\<lparr>fs := QFile_close (logFileName w) (QTextStream_write (logFileName w) line opened)\<rparr>
         | (False, unopened) \<Rightarrow> w\<lparr>fs := unopened\<rparr>))"

definition insertHtml :: "CommandWindow \<Rightarrow> QString \<Rightarrow> CommandWindow" where
  \<comment> \<open>\<open>ui->commandOutput->moveCursor(QTextCursor::End)\<close>, then \<open>insertHtml\<close>\<close>
  "insertHtml w html = w\<lparr>commandOutput := commandOutput w @ [html]\<rparr>"

definition sendCommand :: "CommandWindow \<Rightarrow> QDateTime \<Rightarrow> QString \<Rightarrow> QByteArray \<Rightarrow> CommandWindow" where
  \<comment> \<open>\<open>now\<close> is the first reading of the clock; \<open>stamp\<close> is the text of the second one,
      \<open>QDateTime::currentDateTime().toString()\<close>.\<close>
  "sendCommand w now stamp command =
     (if msecsTo (lastCommand w) now < 1000 then w
      else
        (let w1 = w\<lparr>lastCommand := now\<rparr>;
             output = stamp @ '' > '' @ command;
             w2 = writeToLog w1 (output @ [CHR 0x0A, CHR 0x0A]);
             w3 = insertHtml w2 (output @ ''<br /><br />'')
         in w3\<lparr>rcon := Rcon_send (rcon w3) command\<rparr>))"

definition requestServerStatus :: "CommandWindow \<Rightarrow> CommandWindow" where
  "requestServerStatus w = w\<lparr>status := Query_send (status w) ''getstatus''\<rparr>"

definition on_actionStatus_triggered :: "CommandWindow \<Rightarrow> QDateTime \<Rightarrow> QString \<Rightarrow> CommandWindow" where
  "on_actionStatus_triggered w now stamp = sendCommand w now stamp ''status''"

definition on_actionServer_info_triggered :: "CommandWindow \<Rightarrow> QDateTime \<Rightarrow> QString \<Rightarrow> CommandWindow" where
  "on_actionServer_info_triggered w now stamp = sendCommand w now stamp ''serverinfo''"

subsection \<open>Received console output\<close>

text \<open>
  Modelled from the spec: \<open>OutputParser::parse\<close> and the class \<open>Output\<close> are outside the
  two source files. The window reads two renderings of each parsed line, \<open>getText()\<close>
  and \<open>toHtml()\<close>; the parser is a parameter of the slot.
\<close>

record Output =
  getText :: QString
  toHtml :: QString

fun writeLines :: "CommandWindow \<Rightarrow> Output list \<Rightarrow> CommandWindow" where
  \<comment> \<open>the \<open>while (i.hasNext())\<close> loop of \<open>onReceiveRcon\<close>\<close>
  "writeLines w [] = w"
| "writeLines w (line # rest) = writeLines (insertHtml (writeToLog w (getText line)) (toHtml line)) rest"

definition onReceiveRcon :: "(QByteArray \<Rightarrow> Output list) \<Rightarrow> CommandWindow \<Rightarrow> QByteArray \<Rightarrow> CommandWindow" where
  "onReceiveRcon parse w output = writeLines w (parse output)"

section \<open>Runs of the window\<close>

text \<open>
  What the event loop delivers to the window: a command to send (with the two clock
  readings of that call), a tick of the status timer, a datagram on the rcon socket.
\<close>

datatype Event =
    Command QDateTime QString QByteArray
  | StatusTick
  | RconReceived QByteArray

fun step :: "(QByteArray \<Rightarrow> Output list) \<Rightarrow> CommandWindow \<Rightarrow> Event \<Rightarrow> CommandWindow" where
  "step parse w (Command now stamp command) = sendCommand w now stamp command"
| "step parse w StatusTick = requestServerStatus w"
| "step parse w (RconReceived output) = onReceiveRcon parse w output"

fun run :: "(QByteArray \<Rightarrow> Output list) \<Rightarrow> CommandWindow \<Rightarrow> Event list \<Rightarrow> CommandWindow" where
  "run parse w [] = w"
| "run parse w (e # es) = run parse (step parse w e) es"

subsection \<open>Observations\<close>

definition rconDatagrams :: "CommandWindow \<Rightarrow> QByteArray list" where
  "rconDatagrams w = datagrams (rconTransport (rcon w))"

definition statusDatagrams :: "CommandWindow \<Rightarrow> QByteArray list" where
  "statusDatagrams w = datagrams (queryTransport (status w))"

definition accepted :: "CommandWindow \<Rightarrow> CommandWindow \<Rightarrow> bool" where
  \<comment> \<open>a call that led from \<open>w\<close> to \<open>w'\<close> was accepted: one more datagram went out on the
      rcon socket\<close>
  "accepted w w' = (length (rconDatagrams w') = Suc (length (rconDatagrams w)))"

fun verdicts :: "CommandWindow \<Rightarrow> (QDateTime \<times> QString \<times> QByteArray) list \<Rightarrow> bool list" where
  \<comment> \<open>a sequence of calls of \<open>sendCommand\<close>, each with its clock readings and its command:
      which of them were accepted\<close>
  "verdicts w [] = []"
| "verdicts w ((now, stamp, command) # calls) =
     accepted w (sendCommand w now stamp command)
       # verdicts (sendCommand w now stamp command) calls"

definition loggingDisabled :: "CommandWindow \<Rightarrow> bool" where
  \<comment> \<open>the test at the head of \<open>writeToLog\<close>\<close>
  "loggingDisabled w =
     QVariant_eq (QSettings_value (preferences w) ''logging_enabled'' (VInt 1)) (VString ''0'')"

definition storedContent :: "FileSystem \<Rightarrow> QString \<Rightarrow> QString" where
  \<comment> \<open>the text of a file, empty for a file that does not exist\<close>
  "storedContent fsys name = (case files fsys name of None \<Rightarrow> [] | Some text \<Rightarrow> text)"

fun writtenLines :: "FileOp list \<Rightarrow> QString list" where
  "writtenLines [] = []"
| "writtenLines (Written name line # ops) = line # writtenLines ops"
| "writtenLines (_ # ops) = writtenLines ops"

fun occursIn :: "QString \<Rightarrow> QString \<Rightarrow> bool" where
  \<comment> \<open>\<open>occursIn p s\<close>: the text \<open>p\<close> stands somewhere in \<open>s\<close>\<close>
  "occursIn p [] = (p = [])"
| "occursIn p (c # cs) = (take (length p) (c # cs) = p \<or> occursIn p cs)"

definition setRconPassword :: "CommandWindow \<Rightarrow> QString \<Rightarrow> CommandWindow" where
  \<comment> \<open>the same window, connected with another password\<close>
  "setRconPassword w p =
     w\<lparr>rcon := (rcon w)\<lparr>rconServer := (rconServer (rcon w))\<lparr>getRconPassword := p\<rparr>\<rparr>\<rparr>"

subsection \<open>The rate limiter as the specification words it\<close>

text \<open>
  \<open>CommandGate.tryAccept(now)\<close>: accepts and updates \<open>lastAcceptedAt\<close> if
  \<open>now - lastAcceptedAt >= minInterval\<close>, otherwise rejects and leaves the state
  unchanged; \<open>minInterval\<close> is fixed at 1000 ms.
\<close>

record RateWindow =
  lastAcceptedAt :: int

definition minInterval :: int where
  "minInterval = 1000"

definition tryAccept :: "RateWindow \<Rightarrow> int \<Rightarrow> bool \<times> RateWindow" where
  "tryAccept g now =
     (if now - lastAcceptedAt g \<ge> minInterval then (True, g\<lparr>lastAcceptedAt := now\<rparr>)
      else (False, g))"

fun tryAcceptAll :: "RateWindow \<Rightarrow> int list \<Rightarrow> bool list" where
  "tryAcceptAll g [] = []"
| "tryAcceptAll g (now # later) =
     fst (tryAccept g now) # tryAcceptAll (snd (tryAccept g now)) later"

subsection \<open>A sample session\<close>

definition sampleServer :: Server where
  "sampleServer = \<lparr>getIp = ''127.0.0.1'', getPort = 28960, getRconPassword = ''secret''\<rparr>"

definition emptyDisk :: FileSystem where
  "emptyDisk = \<lparr>files = Map.empty, refused = {}, handles = [], journal = []\<rparr>"

definition lockedDisk :: FileSystem where
  \<comment> \<open>a disk on which the sample log file cannot be opened\<close>
  "lockedDisk = emptyDisk\<lparr>refused := {''log_127.0.0.1_28960.log''}\<rparr>"

definition sampleWindow :: CommandWindow where
  \<comment> \<open>a window constructed at time 0, no setting stored\<close>
  "sampleWindow = CommandWindow_new sampleServer Map.empty 0 emptyDisk"

definition sampleStamp :: QString where
  "sampleStamp = ''Fri Oct 30 04:07:00 2026''"

definition quietWindow :: CommandWindow where
  \<comment> \<open>the same, with \<open>logging_enabled=0\<close> in \<open>preferences.ini\<close>\<close>
  "quietWindow =
     CommandWindow_new sampleServer [''logging_enabled'' \<mapsto> VString ''0''] 0 emptyDisk"

definition lockedWindow :: CommandWindow where
  \<comment> \<open>the same as \<open>sampleWindow\<close>, on a disk that refuses the log file\<close>
  "lockedWindow = CommandWindow_new sampleServer Map.empty 0 lockedDisk"

definition sampleParse :: "QByteArray \<Rightarrow> Output list" where
  \<comment> \<open>a stand-in for the parser: the payload as one line, uncoloured\<close>
  "sampleParse raw = [\<lparr>getText = raw, toHtml = raw\<rparr>]"

section \<open>Properties of the operations\<close>

subsection \<open>What \<open>writeToLog\<close> does, case by case\<close>

lemma writeToLog_disabled:
  "loggingDisabled w \<Longrightarrow> writeToLog w line = w"
  by (simp add: writeToLog_def loggingDisabled_def)

lemma writeToLog_refused:
  "\<not> loggingDisabled w \<Longrightarrow> logFileName w \<in> refused (fs w) \<Longrightarrow>
   writeToLog w line =
     w\<lparr>fs := (fs w)\<lparr>journal := journal (fs w) @ [OpenFailed (logFileName w) [WriteOnly, Append]]\<rparr>\<rparr>"
  by (simp add: writeToLog_def loggingDisabled_def QFile_open_def)

lemma writeToLog_written:
  "\<not> loggingDisabled w \<Longrightarrow> logFileName w \<notin> refused (fs w) \<Longrightarrow>
   writeToLog w line =
     w\<lparr>fs := (fs w)
          \<lparr>files := (files (fs w))(logFileName w \<mapsto> storedContent (fs w) (logFileName w) @ line),
           journal := journal (fs w) @
             [Opened (logFileName w) [WriteOnly, Append],
              Written (logFileName w) line,
              Closed (logFileName w)]\<rparr>\<rparr>"
  by (simp add: writeToLog_def loggingDisabled_def QFile_open_def QTextStream_write_def
        QFile_close_def truncates_def storedContent_def)

lemma writeToLog_cases:
  "writeToLog w line = w \<or>
   writeToLog w line =
     w\<lparr>fs := (fs w)\<lparr>journal := journal (fs w) @ [OpenFailed (logFileName w) [WriteOnly, Append]]\<rparr>\<rparr> \<or>
   writeToLog w line =
     w\<lparr>fs := (fs w)
          \<lparr>files := (files (fs w))(logFileName w \<mapsto> storedContent (fs w) (logFileName w) @ line),
           journal := journal (fs w) @
             [Opened (logFileName w) [WriteOnly, Append],
              Written (logFileName w) line,
              Closed (logFileName w)]\<rparr>\<rparr>"
  using writeToLog_disabled [of w line] writeToLog_refused [of w line]
    writeToLog_written [of w line]
  by blast

lemma writeToLog_keeps:
  "lastCommand (writeToLog w line) = lastCommand w"
  "logFileName (writeToLog w line) = logFileName w"
  "preferences (writeToLog w line) = preferences w"
  "status (writeToLog w line) = status w"
  "rcon (writeToLog w line) = rcon w"
  "commandOutput (writeToLog w line) = commandOutput w"
  by (simp_all add: writeToLog_def split: prod.splits bool.splits)

lemma writeToLog_lastCommand_update:
  "writeToLog (w\<lparr>lastCommand := t\<rparr>) line = (writeToLog w line)\<lparr>lastCommand := t\<rparr>"
  by (simp add: writeToLog_def split: prod.splits bool.splits)

lemma writeToLog_handles:
  "handles (fs (writeToLog w line)) = handles (fs w)"
  using writeToLog_cases [of w line] by auto

lemma writeToLog_journal:
  "journal (fs (writeToLog w line)) = journal (fs w) \<or>
   journal (fs (writeToLog w line)) =
     journal (fs w) @ [OpenFailed (logFileName w) [WriteOnly, Append]] \<or>
   journal (fs (writeToLog w line)) =
     journal (fs w) @
       [Opened (logFileName w) [WriteOnly, Append],
        Written (logFileName w) line,
        Closed (logFileName w)]"
  using writeToLog_cases [of w line] by auto

lemma writtenLines_append:
  "writtenLines (xs @ ys) = writtenLines xs @ writtenLines ys"
  by (induction xs rule: writtenLines.induct) simp_all

lemma writeToLog_writtenLines:
  "writtenLines (journal (fs (writeToLog w line))) =
     writtenLines (journal (fs w)) @
       (if loggingDisabled w \<or> logFileName w \<in> refused (fs w) then [] else [line])"
proof (cases "loggingDisabled w")
  case True
  then show ?thesis by (simp add: writeToLog_disabled)
next
  case off: False
  show ?thesis
  proof (cases "logFileName w \<in> refused (fs w)")
    case True
    with off show ?thesis by (simp add: writeToLog_refused writtenLines_append)
  next
    case False
    with off show ?thesis by (simp add: writeToLog_written writtenLines_append)
  qed
qed

lemma writeToLog_files:
  "files (fs (writeToLog w line)) =
     (if loggingDisabled w \<or> logFileName w \<in> refused (fs w) then files (fs w)
      else (files (fs w))(logFileName w \<mapsto> storedContent (fs w) (logFileName w) @ line))"
proof (cases "loggingDisabled w")
  case True
  then show ?thesis by (simp add: writeToLog_disabled)
next
  case off: False
  show ?thesis
  proof (cases "logFileName w \<in> refused (fs w)")
    case True
    with off show ?thesis by (simp add: writeToLog_refused)
  next
    case False
    with off show ?thesis by (simp add: writeToLog_written)
  qed
qed

lemma writeToLog_extends:
  assumes "files (fs w) name = Some old"
  shows "\<exists>more. files (fs (writeToLog w line)) name = Some (old @ more)"
proof -
  consider
    (off) "writeToLog w line = w"
  | (failed) "writeToLog w line =
      w\<lparr>fs := (fs w)\<lparr>journal := journal (fs w) @ [OpenFailed (logFileName w) [WriteOnly, Append]]\<rparr>\<rparr>"
  | (wrote) "writeToLog w line =
      w\<lparr>fs := (fs w)
          \<lparr>files := (files (fs w))(logFileName w \<mapsto> storedContent (fs w) (logFileName w) @ line),
           journal := journal (fs w) @
             [Opened (logFileName w) [WriteOnly, Append],
              Written (logFileName w) line,
              Closed (logFileName w)]\<rparr>\<rparr>"
    using writeToLog_cases [of w line] by blast
  then show ?thesis
  proof cases
    case off
    with assms show ?thesis by simp
  next
    case failed
    with assms show ?thesis by simp
  next
    case wrote
    show ?thesis
    proof (cases "name = logFileName w")
      case True
      with assms wrote show ?thesis by (simp add: storedContent_def)
    next
      case False
      with assms wrote show ?thesis by simp
    qed
  qed
qed

subsection \<open>What \<open>sendCommand\<close> does, case by case\<close>

lemma sendCommand_rejected:
  "msecsTo (lastCommand w) now < 1000 \<Longrightarrow> sendCommand w now stamp command = w"
  by (simp add: sendCommand_def)

lemma sendCommand_accepted:
  assumes "\<not> msecsTo (lastCommand w) now < 1000"
  shows "lastCommand (sendCommand w now stamp command) = now"
    and "rcon (sendCommand w now stamp command) = Rcon_send (rcon w) command"
    and "status (sendCommand w now stamp command) = status w"
    and "logFileName (sendCommand w now stamp command) = logFileName w"
    and "preferences (sendCommand w now stamp command) = preferences w"
    and "fs (sendCommand w now stamp command) =
           fs (writeToLog w (stamp @ '' > '' @ command @ [CHR 0x0A, CHR 0x0A]))"
    and "commandOutput (sendCommand w now stamp command) =
           commandOutput w @ [stamp @ '' > '' @ command @ ''<br /><br />'']"
  using assms
  by (simp_all add: sendCommand_def Let_def insertHtml_def writeToLog_keeps
        writeToLog_lastCommand_update)

lemma sendCommand_files:
  "1000 \<le> now - lastCommand w \<Longrightarrow>
   fs (sendCommand w now stamp command) =
     fs (writeToLog w (stamp @ '' > '' @ command @ [CHR 0x0A, CHR 0x0A]))"
  by (simp add: sendCommand_accepted msecsTo_def)

lemma sendCommand_keeps:
  "logFileName (sendCommand w now stamp command) = logFileName w"
  "preferences (sendCommand w now stamp command) = preferences w"
  "status (sendCommand w now stamp command) = status w"
  "handles (fs (sendCommand w now stamp command)) = handles (fs w)"
  by ((cases "msecsTo (lastCommand w) now < 1000";
       simp add: sendCommand_rejected sendCommand_accepted writeToLog_handles)+)

lemma Rcon_send_datagrams:
  "datagrams (rconTransport (Rcon_send r command)) =
     datagrams (rconTransport r) @ [frame (''rcon '' @ getRconPassword (rconServer r) @ '' '' @ command)]"
  by (simp add: Rcon_send_def Transport_send_def)

lemma sendCommand_sends:
  "1000 \<le> now - lastCommand w \<Longrightarrow>
   rconDatagrams (sendCommand w now stamp command) =
     rconDatagrams w @
       [frame (''rcon '' @ getRconPassword (rconServer (rcon w)) @ '' '' @ command)]"
  by (simp add: rconDatagrams_def sendCommand_accepted Rcon_send_datagrams msecsTo_def)

lemma accepted_iff:
  "accepted w (sendCommand w now stamp command) = (now - lastCommand w \<ge> 1000)"
proof (cases "msecsTo (lastCommand w) now < 1000")
  case True
  then show ?thesis
    by (simp add: sendCommand_rejected accepted_def) (simp add: msecsTo_def)
next
  case False
  then show ?thesis
    by (simp add: accepted_def rconDatagrams_def sendCommand_accepted Rcon_send_datagrams)
       (simp add: msecsTo_def)
qed

lemma lastCommand_sendCommand:
  "lastCommand (sendCommand w now stamp command) =
     (if now - lastCommand w \<ge> 1000 then now else lastCommand w)"
proof (cases "msecsTo (lastCommand w) now < 1000")
  case True
  then show ?thesis by (simp add: sendCommand_rejected) (simp add: msecsTo_def)
next
  case False
  then show ?thesis by (simp add: sendCommand_accepted) (simp add: msecsTo_def)
qed

lemma verdicts_refine:
  "verdicts w calls = tryAcceptAll \<lparr>lastAcceptedAt = lastCommand w\<rparr> (map fst calls)"
proof (induction calls arbitrary: w)
  case Nil
  show ?case by simp
next
  case (Cons call calls)
  obtain now stamp command where call: "call = (now, stamp, command)"
    by (cases call) auto
  show ?case
    by (simp add: call Cons.IH accepted_iff lastCommand_sendCommand tryAccept_def minInterval_def)
qed

subsection \<open>The other slots, and runs\<close>

lemma insertHtml_keeps:
  "lastCommand (insertHtml w html) = lastCommand w"
  "logFileName (insertHtml w html) = logFileName w"
  "preferences (insertHtml w html) = preferences w"
  "status (insertHtml w html) = status w"
  "rcon (insertHtml w html) = rcon w"
  "fs (insertHtml w html) = fs w"
  by (simp_all add: insertHtml_def)

lemma requestServerStatus_keeps:
  "lastCommand (requestServerStatus w) = lastCommand w"
  "logFileName (requestServerStatus w) = logFileName w"
  "preferences (requestServerStatus w) = preferences w"
  "rcon (requestServerStatus w) = rcon w"
  "commandOutput (requestServerStatus w) = commandOutput w"
  "fs (requestServerStatus w) = fs w"
  by (simp_all add: requestServerStatus_def)

lemma requestServerStatus_lastCommand_update:
  "requestServerStatus (w\<lparr>lastCommand := t\<rparr>) = (requestServerStatus w)\<lparr>lastCommand := t\<rparr>"
  by (simp add: requestServerStatus_def)

lemma statusDatagrams_requestServerStatus:
  "statusDatagrams (requestServerStatus w) = statusDatagrams w @ [frame ''getstatus'']"
  by (simp add: statusDatagrams_def requestServerStatus_def Query_send_def Transport_send_def)

lemma writeLines_keeps:
  "lastCommand (writeLines w ls) = lastCommand w"
  "logFileName (writeLines w ls) = logFileName w"
  "preferences (writeLines w ls) = preferences w"
  "status (writeLines w ls) = status w"
  "rcon (writeLines w ls) = rcon w"
  "handles (fs (writeLines w ls)) = handles (fs w)"
  by (induction w ls rule: writeLines.induct)
     (simp_all add: insertHtml_keeps writeToLog_keeps writeToLog_handles)

lemma step_keeps:
  "logFileName (step parse w e) = logFileName w"
  "preferences (step parse w e) = preferences w"
  "handles (fs (step parse w e)) = handles (fs w)"
  by ((cases e; simp add: sendCommand_keeps requestServerStatus_keeps onReceiveRcon_def
        writeLines_keeps)+)

lemma run_keeps:
  "logFileName (run parse w es) = logFileName w"
  "preferences (run parse w es) = preferences w"
  "handles (fs (run parse w es)) = handles (fs w)"
  by (induction es arbitrary: w) (simp_all add: step_keeps)

lemma ticks_lastCommand:
  "lastCommand (run parse w (replicate n StatusTick)) = lastCommand w"
  by (induction n arbitrary: w) (simp_all add: requestServerStatus_keeps)

lemma ticks_statusDatagrams:
  "statusDatagrams (run parse w (replicate n StatusTick)) =
     statusDatagrams w @ replicate n (frame ''getstatus'')"
proof (induction n arbitrary: w)
  case 0
  show ?case by simp
next
  case (Suc n)
  have "statusDatagrams (run parse w (replicate (Suc n) StatusTick)) =
      statusDatagrams (requestServerStatus w) @ replicate n (frame ''getstatus'')"
    by (simp add: Suc.IH)
  also have "\<dots> = statusDatagrams w @ replicate (Suc n) (frame ''getstatus'')"
    by (simp add: statusDatagrams_requestServerStatus)
  finally show ?case .
qed

subsection \<open>Files only grow\<close>

lemma writeLines_extends:
  "files (fs w) name = Some old \<Longrightarrow>
   \<exists>more. files (fs (writeLines w ls)) name = Some (old @ more)"
proof (induction w ls arbitrary: old rule: writeLines.induct)
  case (1 w)
  then show ?case by simp
next
  case (2 w line rest)
  from writeToLog_extends [OF "2.prems", of "getText line"]
  obtain m1 where m1: "files (fs (writeToLog w (getText line))) name = Some (old @ m1)"
    by blast
  then have "files (fs (insertHtml (writeToLog w (getText line)) (toHtml line))) name = Some (old @ m1)"
    by (simp add: insertHtml_keeps)
  from "2.IH" [OF this]
  obtain m2 where "files (fs (writeLines w (line # rest))) name = Some ((old @ m1) @ m2)"
    by auto
  then show ?case by simp
qed

lemma sendCommand_extends:
  assumes "files (fs w) name = Some old"
  shows "\<exists>more. files (fs (sendCommand w now stamp command)) name = Some (old @ more)"
proof (cases "msecsTo (lastCommand w) now < 1000")
  case True
  with assms show ?thesis by (simp add: sendCommand_rejected)
next
  case False
  with writeToLog_extends [OF assms] show ?thesis by (simp add: sendCommand_accepted)
qed

lemma step_extends:
  assumes "files (fs w) name = Some old"
  shows "\<exists>more. files (fs (step parse w e)) name = Some (old @ more)"
proof (cases e)
  case (Command now stamp command)
  with sendCommand_extends [OF assms] show ?thesis by simp
next
  case StatusTick
  with assms show ?thesis by (simp add: requestServerStatus_keeps)
next
  case (RconReceived raw)
  with writeLines_extends [OF assms] show ?thesis by (simp add: onReceiveRcon_def)
qed

lemma run_extends:
  "files (fs w) name = Some old \<Longrightarrow>
   \<exists>more. files (fs (run parse w es)) name = Some (old @ more)"
proof (induction es arbitrary: w old)
  case Nil
  then show ?case by simp
next
  case (Cons e es)
  from step_extends [OF Cons.prems, of parse e]
  obtain m1 where "files (fs (step parse w e)) name = Some (old @ m1)" by blast
  from Cons.IH [OF this]
  obtain m2 where "files (fs (run parse w (e # es))) name = Some ((old @ m1) @ m2)"
    by auto
  then show ?case by simp
qed

subsection \<open>Logging switched off\<close>

lemma writeLines_disabled:
  "loggingDisabled w \<Longrightarrow> fs (writeLines w ls) = fs w"
proof (induction w ls rule: writeLines.induct)
  case (1 w)
  show ?case by simp
next
  case (2 w line rest)
  from "2.prems" have same: "writeToLog w (getText line) = w"
    by (rule writeToLog_disabled)
  from "2.prems" have "loggingDisabled (insertHtml w (toHtml line))"
    by (simp add: loggingDisabled_def insertHtml_keeps)
  with "2.IH" same have "fs (writeLines (insertHtml w (toHtml line)) rest) = fs (insertHtml w (toHtml line))"
    by simp
  with same show ?case by (simp add: insertHtml_keeps)
qed

lemma sendCommand_disabled:
  "loggingDisabled w \<Longrightarrow> fs (sendCommand w now stamp command) = fs w"
  by (cases "msecsTo (lastCommand w) now < 1000")
     (simp_all add: sendCommand_rejected sendCommand_accepted writeToLog_disabled)

lemma step_disabled:
  "loggingDisabled w \<Longrightarrow> fs (step parse w e) = fs w"
  by (cases e)
     (simp_all add: sendCommand_disabled requestServerStatus_keeps onReceiveRcon_def
        writeLines_disabled)

lemma loggingDisabled_step:
  "loggingDisabled (step parse w e) = loggingDisabled w"
  by (simp add: loggingDisabled_def step_keeps)

lemma run_disabled:
  "loggingDisabled w \<Longrightarrow> fs (run parse w es) = fs w"
  by (induction es arbitrary: w) (simp_all add: step_disabled loggingDisabled_step)

subsection \<open>Another password\<close>

lemma setRconPassword_keeps:
  "lastCommand (setRconPassword w p) = lastCommand w"
  "fs (setRconPassword w p) = fs w"
  "commandOutput (setRconPassword w p) = commandOutput w"
  "getRconPassword (rconServer (rcon (setRconPassword w p))) = p"
  by (simp_all add: setRconPassword_def)

lemma writeToLog_setRconPassword:
  "writeToLog (setRconPassword w p) line = setRconPassword (writeToLog w line) p"
  by (simp add: writeToLog_def setRconPassword_def split: prod.splits bool.splits)

subsection \<open>The sample session, evaluated\<close>

lemma logFileName_new:
  "logFileName (CommandWindow_new server settings now fsys) =
     QString_arg (QString_arg logFileNameFormat (getIp server))
       (QString_number (int (getPort server)))"
  by (simp add: CommandWindow_new_def)

lemma sampleWindow_logFileName:
  "logFileName sampleWindow = ''log_127.0.0.1_28960.log''"
  "logFileName quietWindow = ''log_127.0.0.1_28960.log''"
  "logFileName lockedWindow = ''log_127.0.0.1_28960.log''"
  by (simp_all add: sampleWindow_def quietWindow_def lockedWindow_def CommandWindow_new_def
        sampleServer_def logFileNameFormat_def QString_arg_def QString_number_def
        number_nat.simps)

lemma sample_fields:
  "lastCommand sampleWindow = - 86400000"
  "lastCommand quietWindow = - 86400000"
  "lastCommand lockedWindow = - 86400000"
  "fs sampleWindow = emptyDisk"
  "fs quietWindow = emptyDisk"
  "fs lockedWindow = lockedDisk"
  "preferences sampleWindow = Map.empty"
  "preferences quietWindow = [''logging_enabled'' \<mapsto> VString ''0'']"
  "preferences lockedWindow = Map.empty"
  "rconDatagrams sampleWindow = []"
  "rconDatagrams quietWindow = []"
  "rconDatagrams lockedWindow = []"
  "getRconPassword (rconServer (rcon sampleWindow)) = ''secret''"
  "getRconPassword (rconServer (rcon quietWindow)) = ''secret''"
  "getRconPassword (rconServer (rcon lockedWindow)) = ''secret''"
  by (simp_all add: sampleWindow_def quietWindow_def lockedWindow_def CommandWindow_new_def
        addDays_def rconDatagrams_def Rcon_new_def sampleServer_def)

lemma sample_logging:
  "\<not> loggingDisabled sampleWindow"
  "loggingDisabled quietWindow"
  "\<not> loggingDisabled lockedWindow"
  by (simp_all add: loggingDisabled_def sample_fields QSettings_value_def inIntRange_def)

subsection \<open>The name of the log file\<close>

lemma findArgEscapes_plain:
  "CHR ''%'' \<notin> set xs \<Longrightarrow>
   findArgEscapes Text (xs @ ys) = map Lit xs @ findArgEscapes Text ys"
  by (induction xs) auto

lemma escapes_Lit:
  "escapes (map Lit xs @ ps) = escapes ps"
  by (induction xs) simp_all

lemma replaceArgEscapes_Lit:
  "replaceArgEscapes m a (map Lit xs @ ps) = xs @ replaceArgEscapes m a ps"
  by (induction xs) simp_all

lemma logFileNameFormat_arg_ip:
  "QString_arg logFileNameFormat ip = ''log_'' @ ip @ ''_%2.log''"
  by (simp add: QString_arg_def logFileNameFormat_def)

lemma logFileNameFormat_arg_port:
  assumes "CHR ''%'' \<notin> set ip"
  shows "QString_arg (''log_'' @ ip @ ''_%2.log'') num = ''log_'' @ ip @ ''_'' @ num @ ''.log''"
  using assms
  by (simp add: QString_arg_def findArgEscapes_plain escapes_Lit replaceArgEscapes_Lit)

lemma logFileName_plain:
  assumes "CHR ''%'' \<notin> set (getIp server)"
  shows "logFileName (CommandWindow_new server settings now fsys) =
    ''log_'' @ getIp server @ ''_'' @ QString_number (int (getPort server)) @ ''.log''"
  by (simp only: logFileName_new logFileNameFormat_arg_ip logFileNameFormat_arg_port [OF assms])

lemma digitChar_cases:
  "digitChar d \<in> set ''0123456789''"
proof -
  have "d mod 10 < length ''0123456789''" by simp
  then have "''0123456789'' ! (d mod 10) \<in> set ''0123456789''"
    by (rule nth_mem)
  then show ?thesis by simp
qed

lemma digitValue_digitChar:
  "digitValue (digitChar d) = Some (d mod 10)"
proof -
  have "d mod 10 < 10" by simp
  then consider "d mod 10 = 0" | "d mod 10 = 1" | "d mod 10 = 2" | "d mod 10 = 3"
    | "d mod 10 = 4" | "d mod 10 = 5" | "d mod 10 = 6" | "d mod 10 = 7"
    | "d mod 10 = 8" | "d mod 10 = 9"
    by atomize_elim arith
  then show ?thesis by cases simp_all
qed

lemma toUInt_snoc:
  "toUInt acc (xs @ [c]) =
     (case toUInt acc xs of None \<Rightarrow> None
      | Some a \<Rightarrow> (case digitValue c of None \<Rightarrow> None | Some d \<Rightarrow> Some (10 * a + d)))"
  by (induction xs arbitrary: acc) (simp_all split: option.splits)

lemma toUInt_number_nat:
  "toUInt 0 (number_nat n) = Some n"
proof (induction n rule: number_nat.induct)
  case (1 n)
  show ?case
  proof (cases "n < 10")
    case True
    then show ?thesis
      by (simp add: number_nat.simps [of n] digitValue_digitChar
            del: digitValue.simps digitChar.simps)
  next
    case False
    with "1.IH" have "toUInt 0 (number_nat (n div 10)) = Some (n div 10)" by simp
    with False show ?thesis
      by (simp add: number_nat.simps [of n] toUInt_snoc digitValue_digitChar
            del: digitValue.simps digitChar.simps)
  qed
qed

lemma number_nat_inj:
  "number_nat m = number_nat n \<Longrightarrow> m = n"
  by (metis toUInt_number_nat option.inject)

lemma number_nat_digits:
  "set (number_nat n) \<subseteq> set ''0123456789''"
proof (induction n rule: number_nat.induct)
  case (1 n)
  show ?case
  proof (cases "n < 10")
    case True
    with digitChar_cases [of n] show ?thesis
      by (simp add: number_nat.simps [of n] del: digitChar.simps)
  next
    case False
    with "1.IH" have "set (number_nat (n div 10)) \<subseteq> set ''0123456789''" by simp
    with False digitChar_cases [of n] show ?thesis
      by (simp add: number_nat.simps [of n] del: digitChar.simps)
  qed
qed

lemma number_nat_no_underscore:
  "CHR ''_'' \<notin> set (number_nat n)"
  using number_nat_digits [of n] by auto

lemma split_at_first:
  "ys @ c # xs = ys' @ c # xs' \<Longrightarrow> c \<notin> set ys \<Longrightarrow> c \<notin> set ys' \<Longrightarrow>
   ys = ys' \<and> xs = xs'"
proof (induction ys arbitrary: ys')
  case Nil
  then show ?case by (cases ys') auto
next
  case (Cons a ys)
  then show ?case by (cases ys') auto
qed

lemma split_at_last:
  assumes "xs @ c # ys = xs' @ c # ys'" and "c \<notin> set ys" and "c \<notin> set ys'"
  shows "xs = xs' \<and> ys = ys'"
proof -
  from assms(1) have "rev (xs @ c # ys) = rev (xs' @ c # ys')" by simp
  then have "rev ys @ c # rev xs = rev ys' @ c # rev xs'" by simp
  moreover from assms(2,3) have "c \<notin> set (rev ys)" "c \<notin> set (rev ys')" by simp_all
  ultimately have "rev ys = rev ys' \<and> rev xs = rev xs'"
    by (rule split_at_first)
  then show ?thesis by simp
qed

lemma logFileName_inj:
  assumes "CHR ''%'' \<notin> set (getIp server)" and "CHR ''%'' \<notin> set (getIp server')"
  shows "(logFileName (CommandWindow_new server settings t fsys) =
          logFileName (CommandWindow_new server' settings' t' fsys')) =
         (getIp server = getIp server' \<and> getPort server = getPort server')"
proof
  assume same: "logFileName (CommandWindow_new server settings t fsys) =
      logFileName (CommandWindow_new server' settings' t' fsys')"
  have num: "QString_number (int n) = number_nat n" for n
    by (simp add: QString_number_def)
  from same have "getIp server @ CHR ''_'' # number_nat (getPort server) =
      getIp server' @ CHR ''_'' # number_nat (getPort server')"
    by (simp add: logFileName_plain [OF assms(1)] logFileName_plain [OF assms(2)] num)
  then have "getIp server = getIp server' \<and>
      number_nat (getPort server) = number_nat (getPort server')"
    by (rule split_at_last) (rule number_nat_no_underscore)+
  then show "getIp server = getIp server' \<and> getPort server = getPort server'"
    by (auto dest: number_nat_inj)
next
  assume "getIp server = getIp server' \<and> getPort server = getPort server'"
  then show "logFileName (CommandWindow_new server settings t fsys) =
      logFileName (CommandWindow_new server' settings' t' fsys')"
    by (simp add: logFileName_new)
qed

subsection \<open>Texts that hold another text\<close>

lemma occursIn_iff: "occursIn p s = (\<exists>u v. s = u @ p @ v)"
proof (induction s)
  case Nil
  show ?case by simp
next
  case (Cons c cs)
  have head: "(take (length p) (c # cs) = p) = (\<exists>v. c # cs = p @ v)"
  proof
    assume "take (length p) (c # cs) = p"
    then have "c # cs = p @ drop (length p) (c # cs)"
      by (metis append_take_drop_id)
    then show "\<exists>v. c # cs = p @ v" ..
  next
    assume "\<exists>v. c # cs = p @ v"
    then show "take (length p) (c # cs) = p" by auto
  qed
  have split: "(\<exists>u v. c # cs = u @ p @ v) =
      ((\<exists>v. c # cs = p @ v) \<or> (\<exists>u v. cs = u @ p @ v))"
  proof
    assume "\<exists>u v. c # cs = u @ p @ v"
    then obtain u v where uv: "c # cs = u @ p @ v" by blast
    show "(\<exists>v. c # cs = p @ v) \<or> (\<exists>u v. cs = u @ p @ v)"
    proof (cases u)
      case Nil
      with uv show ?thesis by auto
    next
      case (Cons a u')
      with uv have "cs = u' @ p @ v" by simp
      then show ?thesis by blast
    qed
  next
    assume "(\<exists>v. c # cs = p @ v) \<or> (\<exists>u v. cs = u @ p @ v)"
    then show "\<exists>u v. c # cs = u @ p @ v"
    proof
      assume "\<exists>v. c # cs = p @ v"
      then obtain v where "c # cs = [] @ p @ v" by auto
      then show ?thesis by blast
    next
      assume "\<exists>u v. cs = u @ p @ v"
      then obtain u v where "cs = u @ p @ v" by blast
      then have "c # cs = (c # u) @ p @ v" by simp
      then show ?thesis by blast
    qed
  qed
  show ?case
    by (simp only: occursIn.simps head split Cons.IH)
qed

lemma occursIn_inside:
  "occursIn p s \<Longrightarrow> occursIn p (a @ s @ b)"
proof -
  assume "occursIn p s"
  then obtain u v where "s = u @ p @ v"
    by (auto simp add: occursIn_iff)
  then have "a @ s @ b = (a @ u) @ p @ (v @ b)" by simp
  then show ?thesis unfolding occursIn_iff by blast
qed

lemma sendCommand_unredacted:
  assumes "1000 \<le> now - lastCommand w"
    and on: "\<not> loggingDisabled w" and openable: "logFileName w \<notin> refused (fs w)"
    and held: "occursIn (getRconPassword (rconServer (rcon w))) command"
  shows "\<exists>line \<in> set (writtenLines (journal (fs (sendCommand w now stamp command)))).
      occursIn (getRconPassword (rconServer (rcon w))) line"
proof -
  let ?line = "stamp @ '' > '' @ command @ [CHR 0x0A, CHR 0x0A]"
  let ?pw = "getRconPassword (rconServer (rcon w))"
  have "writtenLines (journal (fs (sendCommand w now stamp command))) =
       writtenLines (journal (fs w)) @ [?line]"
    using on openable
    by (simp add: sendCommand_files [OF assms(1)] writeToLog_writtenLines)
  then have mem: "?line \<in> set (writtenLines (journal (fs (sendCommand w now stamp command))))"
    by simp
  from held have "occursIn ?pw ((stamp @ '' > '') @ command @ [CHR 0x0A, CHR 0x0A])"
    by (rule occursIn_inside)
  then have "occursIn ?pw ?line" by (simp only: append_assoc)
  with mem show ?thesis by blast
qed

section \<open>The claims\<close>

subsection \<open>The rate limiter\<close>

text \<open>
  C1. Whatever calls came before, a call of \<open>sendCommand\<close> at time \<open>now\<close> is accepted
  (its datagram goes out) exactly when \<open>now - lastCommand >= 1000\<close> milliseconds, and
  an accepted call sets \<open>lastCommand\<close> to \<open>now\<close> while a rejected one keeps it. Over every
  sequence of calls the window answers as \<open>CommandGate.tryAccept\<close> of the specification
  does, started at the window's \<open>lastCommand\<close>. In particular, with the interval
  already elapsed, calls at 0, 500 and 1200 ms are accepted, rejected, accepted.
\<close>

theorem sendCommand_rate_limit:
  "accepted w (sendCommand w now stamp command) = (now - lastCommand w \<ge> 1000)
   \<and> lastCommand (sendCommand w now stamp command) =
       (if now - lastCommand w \<ge> 1000 then now else lastCommand w)
   \<and> verdicts w calls = tryAcceptAll \<lparr>lastAcceptedAt = lastCommand w\<rparr> (map fst calls)
   \<and> (lastCommand w \<le> - 1000 \<longrightarrow>
        verdicts w [(0, s1, c1), (500, s2, c2), (1200, s3, c3)] = [True, False, True])"
proof -
  have "verdicts w [(0, s1, c1), (500, s2, c2), (1200, s3, c3)] = [True, False, True]"
    if "lastCommand w \<le> - 1000"
    using that by (simp add: accepted_iff lastCommand_sendCommand)
  then show ?thesis
    using accepted_iff [of w now stamp command] lastCommand_sendCommand [of w now stamp command]
      verdicts_refine [of w calls]
    by blast
qed

theorem sendCommand_rate_limit_witness:
  "lastCommand sampleWindow \<le> - 1000
   \<and> verdicts sampleWindow
        [(0, sampleStamp, ''status''), (500, sampleStamp, ''map q3dm6''),
         (1200, sampleStamp, ''serverinfo'')] = [True, False, True]
   \<and> lastCommand (sendCommand sampleWindow 0 sampleStamp ''status'') = 0"
  using sendCommand_rate_limit [of sampleWindow 0 sampleStamp "''status''" "[]"
      sampleStamp "''status''" sampleStamp "''map q3dm6''" sampleStamp "''serverinfo''"]
  by (simp add: sampleWindow_def CommandWindow_new_def addDays_def)

text \<open>
  C2. A call of \<open>sendCommand\<close> that the rate limiter rejects returns the window as it
  was: \<open>lastCommand\<close> keeps its value, no file operation is issued and no file changes,
  nothing goes out on the rcon socket and nothing is shown. The operation has no error
  result: it always returns a window.
\<close>

theorem sendCommand_rejected_silently:
  assumes "now - lastCommand w < 1000"
  shows "sendCommand w now stamp command = w
    \<and> lastCommand (sendCommand w now stamp command) = lastCommand w
    \<and> journal (fs (sendCommand w now stamp command)) = journal (fs w)
    \<and> files (fs (sendCommand w now stamp command)) = files (fs w)
    \<and> rconDatagrams (sendCommand w now stamp command) = rconDatagrams w
    \<and> commandOutput (sendCommand w now stamp command) = commandOutput w
    \<and> \<not> accepted w (sendCommand w now stamp command)"
proof -
  from assms have "msecsTo (lastCommand w) now < 1000"
    by (simp add: msecsTo_def)
  then have "sendCommand w now stamp command = w"
    by (rule sendCommand_rejected)
  then show ?thesis
    by (simp add: accepted_def)
qed

theorem sendCommand_rejected_silently_witness:
  "500 - lastCommand (sendCommand sampleWindow 0 sampleStamp ''status'') < 1000
   \<and> sendCommand (sendCommand sampleWindow 0 sampleStamp ''status'') 500 sampleStamp ''kick 3'' =
       sendCommand sampleWindow 0 sampleStamp ''status''
   \<and> rconDatagrams (sendCommand (sendCommand sampleWindow 0 sampleStamp ''status'') 500 sampleStamp ''kick 3'') =
       [frame ''rcon secret status'']"
proof -
  have last: "lastCommand (sendCommand sampleWindow 0 sampleStamp ''status'') = 0"
    by (simp add: lastCommand_sendCommand sampleWindow_def CommandWindow_new_def addDays_def)
  have sent: "rconDatagrams (sendCommand sampleWindow 0 sampleStamp ''status'') =
      [frame ''rcon secret status'']"
    by (simp add: rconDatagrams_def sendCommand_accepted Rcon_send_datagrams msecsTo_def
          sampleWindow_def CommandWindow_new_def addDays_def Rcon_new_def sampleServer_def)
  from last have "500 - lastCommand (sendCommand sampleWindow 0 sampleStamp ''status'') < 1000"
    by simp
  from this sendCommand_rejected_silently [OF this, of sampleStamp "''kick 3''"] sent
  show ?thesis by simp
qed

subsection \<open>Framing\<close>

text \<open>
  C3. Unframing a framed payload gives the payload back, for every byte sequence; and
  \<open>unframe\<close> fails with \<open>MalformedFrame\<close> exactly when the datagram is shorter than 4
  bytes or its first 4 bytes are not the marker \<open>0xFFFFFFFF\<close>, returning the bytes
  after the marker otherwise.
\<close>

theorem unframe_frame:
  "unframe (frame payload) = Inr payload
   \<and> (unframe datagram = Inl MalformedFrame) =
       (length datagram < 4 \<or> take 4 datagram \<noteq> marker)
   \<and> (unframe datagram = Inr rest) =
       (4 \<le> length datagram \<and> take 4 datagram = marker \<and> rest = drop 4 datagram)"
  by (auto simp add: unframe_def frame_def marker_def)

theorem unframe_frame_witness:
  "unframe (frame ''getstatus'') = Inr ''getstatus''
   \<and> unframe [CHR 0xFF, CHR 0xFF, CHR 0xFF] = Inl MalformedFrame
   \<and> unframe ''print'' = Inl MalformedFrame
   \<and> unframe (marker @ ''print'') = Inr ''print''"
  using unframe_frame [of "''getstatus''" "[CHR 0xFF, CHR 0xFF, CHR 0xFF]" "''''"]
    unframe_frame [of "''''" "''print''" "''''"]
    unframe_frame [of "''''" "marker @ ''print''" "''print''"]
  by (simp add: marker_def)

subsection \<open>The transcript log\<close>

text \<open>
  C5. While the logging flag is off (the stored \<open>logging_enabled\<close> compares equal to
  \<open>"0"\<close>), \<open>writeToLog\<close> returns before any file operation: it issues none, and no file
  is opened, created or written. The same holds for a command send and for every run
  of the window: the file system stays as it was.
\<close>

theorem writeToLog_disabled_no_io:
  assumes "loggingDisabled w"
  shows "writeToLog w line = w
    \<and> journal (fs (writeToLog w line)) = journal (fs w)
    \<and> files (fs (writeToLog w line)) = files (fs w)
    \<and> handles (fs (writeToLog w line)) = handles (fs w)
    \<and> fs (sendCommand w now stamp command) = fs w
    \<and> fs (run parse w events) = fs w"
  using assms
  by (simp add: writeToLog_disabled sendCommand_disabled run_disabled)

theorem writeToLog_disabled_no_io_witness:
  "loggingDisabled quietWindow
   \<and> writeToLog quietWindow ''map q3dm6'' = quietWindow
   \<and> fs (run sampleParse quietWindow
         [Command 0 sampleStamp ''status'', StatusTick, RconReceived ''map: q3dm6'']) = emptyDisk
   \<and> journal emptyDisk = []"
  using sample_logging(2)
    writeToLog_disabled_no_io [OF sample_logging(2), of "''map q3dm6''" 0 sampleStamp "''status''"
      sampleParse "[Command 0 sampleStamp ''status'', StatusTick, RconReceived ''map: q3dm6'']"]
  by (simp add: sample_fields emptyDisk_def)

text \<open>
  C6. When the log file cannot be opened, \<open>writeToLog\<close> absorbs the failure: no file
  changes, no handle stays open, no line is written, and it returns the window (at most
  with the failed open on record); it has no error result. A command send that the
  rate limiter accepts reaches the transport whatever became of the log write: the
  datagram goes out, \<open>lastCommand\<close> is set and the command is shown.
\<close>

theorem log_open_failure_absorbed:
  "(logFileName w \<in> refused (fs w) \<longrightarrow>
      files (fs (writeToLog w line)) = files (fs w)
      \<and> handles (fs (writeToLog w line)) = handles (fs w)
      \<and> writtenLines (journal (fs (writeToLog w line))) = writtenLines (journal (fs w))
      \<and> (writeToLog w line = w \<or>
          writeToLog w line =
            w\<lparr>fs := (fs w)\<lparr>journal := journal (fs w) @
                   [OpenFailed (logFileName w) [WriteOnly, Append]]\<rparr>\<rparr>)
      \<and> (1000 \<le> now - lastCommand w \<longrightarrow>
            files (fs (sendCommand w now stamp command)) = files (fs w)))
   \<and> (1000 \<le> now - lastCommand w \<longrightarrow>
        rconDatagrams (sendCommand w now stamp command) =
          rconDatagrams w @
            [frame (''rcon '' @ getRconPassword (rconServer (rcon w)) @ '' '' @ command)]
        \<and> lastCommand (sendCommand w now stamp command) = now
        \<and> commandOutput (sendCommand w now stamp command) =
            commandOutput w @ [stamp @ '' > '' @ command @ ''<br /><br />''])"
proof -
  have skip: "writeToLog w l = w \<or>
      writeToLog w l =
        w\<lparr>fs := (fs w)\<lparr>journal := journal (fs w) @
               [OpenFailed (logFileName w) [WriteOnly, Append]]\<rparr>\<rparr>"
    if "logFileName w \<in> refused (fs w)" for l
    using that writeToLog_disabled [of w l] writeToLog_refused [of w l] by blast
  have files: "files (fs (writeToLog w l)) = files (fs w)"
    and written: "writtenLines (journal (fs (writeToLog w l))) = writtenLines (journal (fs w))"
    if "logFileName w \<in> refused (fs w)" for l
    using skip [OF that, of l] by (auto simp add: writtenLines_append)
  have sent: "rconDatagrams (sendCommand w now stamp command) =
      rconDatagrams w @
        [frame (''rcon '' @ getRconPassword (rconServer (rcon w)) @ '' '' @ command)]"
    and last: "lastCommand (sendCommand w now stamp command) = now"
    and shown: "commandOutput (sendCommand w now stamp command) =
        commandOutput w @ [stamp @ '' > '' @ command @ ''<br /><br />'']"
    if "1000 \<le> now - lastCommand w"
    using that by (simp_all add: sendCommand_sends sendCommand_accepted msecsTo_def)
  show ?thesis
    using skip files written sent last shown
    by (simp add: writeToLog_handles sendCommand_files)
qed

theorem log_open_failure_absorbed_witness:
  "logFileName lockedWindow \<in> refused (fs lockedWindow)
   \<and> 1000 \<le> 0 - lastCommand lockedWindow
   \<and> files (fs (sendCommand lockedWindow 0 sampleStamp ''status'')) = Map.empty
   \<and> rconDatagrams (sendCommand lockedWindow 0 sampleStamp ''status'') =
       [frame ''rcon secret status'']"
  using log_open_failure_absorbed [of lockedWindow "''''" 0 sampleStamp "''status''"]
  by (simp add: sample_fields sampleWindow_logFileName lockedDisk_def emptyDisk_def)

text \<open>
  C9. \<open>writeToLog\<close> skips the append (issues no file operation) exactly when the stored
  \<open>logging_enabled\<close>, with the default 1 for an absent setting, compares equal to the
  string \<open>"0"\<close>. With no setting stored the append proceeds; a stored string disables
  logging only if it is \<open>"0"\<close>, so \<open>"false"\<close> does not; and an append that proceeds on a
  file that can be opened puts the line at the end of the log file.
\<close>

theorem logging_disabled_only_by_0:
  "(journal (fs (writeToLog w line)) = journal (fs w)) =
     QVariant_eq (QSettings_value (preferences w) ''logging_enabled'' (VInt 1)) (VString ''0'')
   \<and> (preferences w ''logging_enabled'' = None \<longrightarrow>
        journal (fs (writeToLog w line)) \<noteq> journal (fs w))
   \<and> (preferences w ''logging_enabled'' = Some (VString s) \<longrightarrow>
        (journal (fs (writeToLog w line)) = journal (fs w)) = (s = ''0''))
   \<and> (preferences w ''logging_enabled'' = Some (VString ''false'') \<longrightarrow>
        journal (fs (writeToLog w line)) \<noteq> journal (fs w))
   \<and> (journal (fs (writeToLog w line)) \<noteq> journal (fs w) \<and> logFileName w \<notin> refused (fs w) \<longrightarrow>
        files (fs (writeToLog w line)) (logFileName w) =
          Some (storedContent (fs w) (logFileName w) @ line))"
proof -
  have iff: "(journal (fs (writeToLog w line)) = journal (fs w)) = loggingDisabled w"
  proof (cases "loggingDisabled w")
    case True
    then show ?thesis by (simp add: writeToLog_disabled)
  next
    case False
    then show ?thesis
      using writeToLog_refused [of w line] writeToLog_written [of w line]
      by (cases "logFileName w \<in> refused (fs w)") simp_all
  qed
  have absent: "\<not> loggingDisabled w" if "preferences w ''logging_enabled'' = None"
    using that by (simp add: loggingDisabled_def QSettings_value_def inIntRange_def)
  have stored: "loggingDisabled w = (s = ''0'')"
    if "preferences w ''logging_enabled'' = Some (VString s)"
    using that by (simp add: loggingDisabled_def QSettings_value_def)
  have false: "\<not> loggingDisabled w"
    if "preferences w ''logging_enabled'' = Some (VString ''false'')"
    using that by (simp add: loggingDisabled_def QSettings_value_def)
  have appended: "files (fs (writeToLog w line)) (logFileName w) =
      Some (storedContent (fs w) (logFileName w) @ line)"
    if "journal (fs (writeToLog w line)) \<noteq> journal (fs w)" "logFileName w \<notin> refused (fs w)"
    using that iff writeToLog_written [of w line] by simp
  show ?thesis
    using iff absent stored false appended by (simp add: loggingDisabled_def)
qed

theorem logging_disabled_only_by_0_witness:
  "preferences sampleWindow ''logging_enabled'' = None
   \<and> journal (fs (writeToLog sampleWindow ''status'')) \<noteq> journal (fs sampleWindow)
   \<and> preferences quietWindow ''logging_enabled'' = Some (VString ''0'')
   \<and> journal (fs (writeToLog quietWindow ''status'')) = journal (fs quietWindow)
   \<and> files (fs (writeToLog sampleWindow ''status'')) ''log_127.0.0.1_28960.log'' = Some ''status''"
  using logging_disabled_only_by_0 [of sampleWindow "''status''" "''''"]
    logging_disabled_only_by_0 [of quietWindow "''status''" "''0''"]
  by (simp add: sample_fields sampleWindow_logFileName QSettings_value_def inIntRange_def
        emptyDisk_def storedContent_def)

text \<open>
  C7. The name of the log file is built from the server's host and port, and from
  nothing else: it is the format \<open>log_%1_%2.log\<close> with the host, then the port, filled
  in by \<open>QString::arg\<close>. Two windows built for the same pair get the same name,
  whatever the password, the settings, the time and the disk. For a host without a
  \<open>%\<close> the name is \<open>log_<host>_<port>.log\<close>, the port in decimal, and two such servers
  get the same name only if host and port are the same. No run of the window changes
  the name. Every append opens that file
  with \<open>WriteOnly | Append\<close>, a mode that does not truncate, writes the line and closes
  the file, or fails to open it, or is skipped; the open handles are the same after the
  call as before. So every file keeps its old text as a prefix, under an append and
  under every run.
\<close>

theorem log_file_append_only:
  "(getIp server = getIp server' \<and> getPort server = getPort server' \<longrightarrow>
      logFileName (CommandWindow_new server settings t fsys) =
      logFileName (CommandWindow_new server' settings' t' fsys'))
   \<and> logFileName (CommandWindow_new server settings t fsys) =
       QString_arg (QString_arg logFileNameFormat (getIp server))
         (QString_number (int (getPort server)))
   \<and> (CHR ''%'' \<notin> set (getIp server) \<longrightarrow>
        logFileName (CommandWindow_new server settings t fsys) =
          ''log_'' @ getIp server @ ''_'' @ QString_number (int (getPort server)) @ ''.log'')
   \<and> (CHR ''%'' \<notin> set (getIp server) \<and> CHR ''%'' \<notin> set (getIp server') \<longrightarrow>
        (logFileName (CommandWindow_new server settings t fsys) =
         logFileName (CommandWindow_new server' settings' t' fsys')) =
        (getIp server = getIp server' \<and> getPort server = getPort server'))
   \<and> logFileName (run parse w events) = logFileName w
   \<and> (journal (fs (writeToLog w line)) = journal (fs w) \<or>
       journal (fs (writeToLog w line)) =
         journal (fs w) @ [OpenFailed (logFileName w) [WriteOnly, Append]] \<or>
       journal (fs (writeToLog w line)) =
         journal (fs w) @
           [Opened (logFileName w) [WriteOnly, Append],
            Written (logFileName w) line,
            Closed (logFileName w)])
   \<and> truncates [WriteOnly, Append] = False
   \<and> handles (fs (writeToLog w line)) = handles (fs w)
   \<and> handles (fs (run parse w events)) = handles (fs w)
   \<and> (files (fs w) name = Some old \<longrightarrow>
        (\<exists>more. files (fs (writeToLog w line)) name = Some (old @ more))
        \<and> (\<exists>more. files (fs (run parse w events)) name = Some (old @ more)))"
proof -
  have name: "logFileName (CommandWindow_new server settings t fsys) =
      logFileName (CommandWindow_new server' settings' t' fsys')"
    if "getIp server = getIp server'" "getPort server = getPort server'"
    using that by (simp add: logFileName_new)
  have grows: "(\<exists>more. files (fs (writeToLog w line)) name = Some (old @ more))
      \<and> (\<exists>more. files (fs (run parse w events)) name = Some (old @ more))"
    if "files (fs w) name = Some old"
    using writeToLog_extends [OF that, of line] run_extends [OF that, of parse events]
    by blast
  have mode: "truncates [WriteOnly, Append] = False"
    by (simp add: truncates_def)
  have built: "logFileName (CommandWindow_new server settings t fsys) =
      QString_arg (QString_arg logFileNameFormat (getIp server))
        (QString_number (int (getPort server)))"
    by (rule logFileName_new)
  have plain: "logFileName (CommandWindow_new server settings t fsys) =
      ''log_'' @ getIp server @ ''_'' @ QString_number (int (getPort server)) @ ''.log''"
    if "CHR ''%'' \<notin> set (getIp server)"
    using that by (rule logFileName_plain)
  have apart: "(logFileName (CommandWindow_new server settings t fsys) =
       logFileName (CommandWindow_new server' settings' t' fsys')) =
      (getIp server = getIp server' \<and> getPort server = getPort server')"
    if "CHR ''%'' \<notin> set (getIp server)" "CHR ''%'' \<notin> set (getIp server')"
    using that by (rule logFileName_inj)
  have appends: "truncates [WriteOnly, Append] = False
    \<and> handles (fs (writeToLog w line)) = handles (fs w)
    \<and> handles (fs (run parse w events)) = handles (fs w)
    \<and> logFileName (run parse w events) = logFileName w
    \<and> (files (fs w) name = Some old \<longrightarrow>
        (\<exists>more. files (fs (writeToLog w line)) name = Some (old @ more))
        \<and> (\<exists>more. files (fs (run parse w events)) name = Some (old @ more)))"
    using grows mode writeToLog_handles [of w line]
      run_keeps(1) [of parse w events] run_keeps(3) [of parse w events]
    by blast
  from name built plain apart appends writeToLog_journal [of w line]
  show ?thesis by blast
qed

theorem log_file_append_only_witness:
  "CHR ''%'' \<notin> set (getIp sampleServer)
   \<and> logFileName sampleWindow = ''log_127.0.0.1_28960.log''
   \<and> logFileName lockedWindow = logFileName sampleWindow
   \<and> logFileName (CommandWindow_new (sampleServer\<lparr>getPort := 28961\<rparr>) Map.empty 0 emptyDisk) \<noteq>
       logFileName sampleWindow
   \<and> files (fs (sendCommand sampleWindow 0 sampleStamp ''status'')) ''log_127.0.0.1_28960.log''
       = Some ''Fri Oct 30 04:07:00 2026 > status\<newline>\<newline>''
   \<and> (\<exists>more.
        files (fs (run sampleParse (sendCommand sampleWindow 0 sampleStamp ''status'')
                [RconReceived ''map: q3dm6'', StatusTick, Command 2000 sampleStamp ''serverinfo'']))
          ''log_127.0.0.1_28960.log''
        = Some (''Fri Oct 30 04:07:00 2026 > status\<newline>\<newline>'' @ more))
   \<and> handles (fs (run sampleParse (sendCommand sampleWindow 0 sampleStamp ''status'')
                [RconReceived ''map: q3dm6'', StatusTick, Command 2000 sampleStamp ''serverinfo'']))
       = []"
proof -
  have first: "files (fs (sendCommand sampleWindow 0 sampleStamp ''status'')) ''log_127.0.0.1_28960.log''
       = Some ''Fri Oct 30 04:07:00 2026 > status\<newline>\<newline>''"
    using sample_logging(1)
    by (simp add: sendCommand_files sample_fields writeToLog_written sampleWindow_logFileName
          emptyDisk_def storedContent_def sampleStamp_def)
  have none: "handles (fs (sendCommand sampleWindow 0 sampleStamp ''status'')) = []"
    by (simp add: sendCommand_keeps sample_fields emptyDisk_def)
  have plain: "CHR ''%'' \<notin> set (getIp sampleServer)"
    by (simp add: sampleServer_def)
  have name: "logFileName sampleWindow = ''log_127.0.0.1_28960.log''"
  proof -
    from plain
      log_file_append_only [of sampleServer sampleServer Map.empty 0 emptyDisk Map.empty 0 emptyDisk
        sampleParse sampleWindow "[]" "''''" "''''" "''''"]
    have "logFileName (CommandWindow_new sampleServer Map.empty 0 emptyDisk) =
        ''log_'' @ getIp sampleServer @ ''_'' @ QString_number (int (getPort sampleServer)) @ ''.log''"
      by blast
    then show ?thesis
      by (simp add: sampleWindow_def sampleServer_def QString_number_def number_nat.simps)
  qed
  have other: "logFileName (CommandWindow_new (sampleServer\<lparr>getPort := 28961\<rparr>) Map.empty 0 emptyDisk) \<noteq>
      logFileName sampleWindow"
  proof -
    from plain have "CHR ''%'' \<notin> set (getIp (sampleServer\<lparr>getPort := 28961\<rparr>))"
      by simp
    from this plain
      log_file_append_only [of "sampleServer\<lparr>getPort := 28961\<rparr>" sampleServer
        Map.empty 0 emptyDisk Map.empty 0 emptyDisk sampleParse sampleWindow "[]" "''''" "''''" "''''"]
    have "(logFileName (CommandWindow_new (sampleServer\<lparr>getPort := 28961\<rparr>) Map.empty 0 emptyDisk) =
         logFileName (CommandWindow_new sampleServer Map.empty 0 emptyDisk)) =
        (getIp (sampleServer\<lparr>getPort := 28961\<rparr>) = getIp sampleServer
         \<and> getPort (sampleServer\<lparr>getPort := 28961\<rparr>) = getPort sampleServer)"
      by blast
    then show ?thesis
      by (simp add: sampleWindow_def sampleServer_def)
  qed
  have run: "logFileName lockedWindow = logFileName sampleWindow
    \<and> (\<exists>more.
        files (fs (run sampleParse (sendCommand sampleWindow 0 sampleStamp ''status'')
                [RconReceived ''map: q3dm6'', StatusTick, Command 2000 sampleStamp ''serverinfo'']))
          ''log_127.0.0.1_28960.log''
        = Some (''Fri Oct 30 04:07:00 2026 > status\<newline>\<newline>'' @ more))
    \<and> handles (fs (run sampleParse (sendCommand sampleWindow 0 sampleStamp ''status'')
                [RconReceived ''map: q3dm6'', StatusTick, Command 2000 sampleStamp ''serverinfo'']))
       = []"
    using first none
      log_file_append_only [of sampleServer sampleServer Map.empty 0 lockedDisk Map.empty 0 emptyDisk
        sampleParse "sendCommand sampleWindow 0 sampleStamp ''status''"
        "[RconReceived ''map: q3dm6'', StatusTick, Command 2000 sampleStamp ''serverinfo'']"
        "''''" "''log_127.0.0.1_28960.log''" "''Fri Oct 30 04:07:00 2026 > status\<newline>\<newline>''"]
    by (simp add: sampleWindow_def lockedWindow_def)
  from plain name other first run show ?thesis by simp
qed

subsection \<open>The status poll and the first command\<close>

text \<open>
  C10. \<open>requestServerStatus\<close> sends \<open>getstatus\<close> on the query client's socket at every
  tick: it neither reads \<open>lastCommand\<close> (it commutes with any change of it) nor changes
  it, and leaves the rcon client and the files alone, so \<open>n\<close> ticks send \<open>n\<close> datagrams
  however close they are, and a tick does not change whether the next command is
  accepted. Received console output does not move \<open>lastCommand\<close> either: the 1000 ms
  limit bears on \<open>sendCommand\<close> alone.
\<close>

theorem status_poll_bypasses_gate:
  "lastCommand (requestServerStatus w) = lastCommand w
   \<and> statusDatagrams (requestServerStatus w) = statusDatagrams w @ [frame ''getstatus'']
   \<and> requestServerStatus (w\<lparr>lastCommand := t\<rparr>) = (requestServerStatus w)\<lparr>lastCommand := t\<rparr>
   \<and> rcon (requestServerStatus w) = rcon w
   \<and> fs (requestServerStatus w) = fs w
   \<and> lastCommand (run parse w (replicate n StatusTick)) = lastCommand w
   \<and> statusDatagrams (run parse w (replicate n StatusTick)) =
       statusDatagrams w @ replicate n (frame ''getstatus'')
   \<and> accepted (requestServerStatus w) (sendCommand (requestServerStatus w) now stamp command) =
       accepted w (sendCommand w now stamp command)
   \<and> lastCommand (step parse w (RconReceived raw)) = lastCommand w
   \<and> accepted w (sendCommand w now stamp command) = (now - lastCommand w \<ge> 1000)"
  by (simp add: requestServerStatus_keeps statusDatagrams_requestServerStatus
        requestServerStatus_lastCommand_update ticks_lastCommand ticks_statusDatagrams
        accepted_iff onReceiveRcon_def writeLines_keeps)

theorem status_poll_bypasses_gate_witness:
  "statusDatagrams (run sampleParse (sendCommand sampleWindow 0 sampleStamp ''status'')
      (replicate 3 StatusTick)) =
     [frame ''getstatus'', frame ''getstatus'', frame ''getstatus'']
   \<and> lastCommand (run sampleParse (sendCommand sampleWindow 0 sampleStamp ''status'')
        (replicate 3 StatusTick)) = 0"
proof -
  have none: "statusDatagrams (sendCommand sampleWindow 0 sampleStamp ''status'') = []"
    by (simp add: statusDatagrams_def sendCommand_keeps sampleWindow_def CommandWindow_new_def
          Query_new_def)
  have last: "lastCommand (sendCommand sampleWindow 0 sampleStamp ''status'') = 0"
    by (simp add: lastCommand_sendCommand sample_fields)
  have three: "replicate 3 x = [x, x, x]" for x :: QByteArray
    by (simp add: numeral_3_eq_3)
  show ?thesis
    using none last
      status_poll_bypasses_gate [of "sendCommand sampleWindow 0 sampleStamp ''status''" 0
        sampleParse 3 0 sampleStamp "''''" "''''"]
    by (simp add: three)
qed

text \<open>
  C8. The constructor sets \<open>lastCommand\<close> one day (86400000 ms) before the time of
  construction, so the first call of \<open>sendCommand\<close>, at any time from the construction
  on, is accepted; the constructor's own delayed \<open>status\<close> command is such a call.
\<close>

theorem first_command_accepted:
  assumes "t0 \<le> now"
  shows "accepted (CommandWindow_new server settings t0 fsys)
           (sendCommand (CommandWindow_new server settings t0 fsys) now stamp command)
    \<and> lastCommand (CommandWindow_new server settings t0 fsys) = t0 - 86400000
    \<and> msecsTo (lastCommand (CommandWindow_new server settings t0 fsys)) t0 = 86400000
    \<and> lastCommand (sendCommand (CommandWindow_new server settings t0 fsys) now stamp command) = now
    \<and> accepted (CommandWindow_new server settings t0 fsys)
          (on_actionStatus_triggered (CommandWindow_new server settings t0 fsys) now stamp)"
proof -
  have last: "lastCommand (CommandWindow_new server settings t0 fsys) = t0 - 86400000"
    by (simp add: CommandWindow_new_def addDays_def)
  with assms show ?thesis
    by (simp add: accepted_iff lastCommand_sendCommand msecsTo_def on_actionStatus_triggered_def)
qed

theorem first_command_accepted_witness:
  "(0::int) \<le> 0
   \<and> accepted sampleWindow (sendCommand sampleWindow 0 sampleStamp ''status'')
   \<and> rconDatagrams (sendCommand sampleWindow 0 sampleStamp ''status'') =
       [frame ''rcon secret status'']"
proof -
  have "(0::int) \<le> 0" by simp
  from first_command_accepted [OF this, of sampleServer Map.empty emptyDisk sampleStamp "''status''"]
  show ?thesis
    by (simp add: sampleWindow_def [symmetric] sendCommand_sends sample_fields)
qed

subsection \<open>The password and the transcript\<close>

text \<open>
  C4, as the code has it. For every accepted command send, the only text written to
  the log is the timestamp, the separator \<open>" > "\<close>, the command as the user entered it
  and two newlines (nothing, when logging is off or the file cannot be opened), put at
  the end of the log file. The files and the shown transcript are the same whatever
  the rcon password is: the password is never taken from the client into the log,
  while the datagram on the wire is \<open>rcon <password> <command>\<close>, framed. The command
  is logged as typed, not redacted: whenever it holds the password and the line is
  written, a logged line holds the password.
\<close>

theorem logged_line_without_password:
  assumes "1000 \<le> now - lastCommand w"
  shows "writtenLines (journal (fs (sendCommand w now stamp command))) =
       writtenLines (journal (fs w)) @
         (if loggingDisabled w \<or> logFileName w \<in> refused (fs w) then []
          else [stamp @ '' > '' @ command @ [CHR 0x0A, CHR 0x0A]])
    \<and> files (fs (sendCommand w now stamp command)) =
        (if loggingDisabled w \<or> logFileName w \<in> refused (fs w) then files (fs w)
         else (files (fs w))(logFileName w \<mapsto>
                storedContent (fs w) (logFileName w) @
                  stamp @ '' > '' @ command @ [CHR 0x0A, CHR 0x0A]))
    \<and> fs (sendCommand (setRconPassword w p) now stamp command) =
        fs (sendCommand w now stamp command)
    \<and> commandOutput (sendCommand (setRconPassword w p) now stamp command) =
        commandOutput (sendCommand w now stamp command)
    \<and> rconDatagrams (sendCommand w now stamp command) =
        rconDatagrams w @
          [frame (''rcon '' @ getRconPassword (rconServer (rcon w)) @ '' '' @ command)]
    \<and> (\<not> loggingDisabled w \<and> logFileName w \<notin> refused (fs w)
        \<and> occursIn (getRconPassword (rconServer (rcon w))) command \<longrightarrow>
        (\<exists>line \<in> set (writtenLines (journal (fs (sendCommand w now stamp command)))).
           occursIn (getRconPassword (rconServer (rcon w))) line))"
proof -
  let ?line = "stamp @ '' > '' @ command @ [CHR 0x0A, CHR 0x0A]"
  from assms have acc: "\<not> msecsTo (lastCommand w) now < 1000"
    and acc': "\<not> msecsTo (lastCommand (setRconPassword w p)) now < 1000"
    by (simp_all add: msecsTo_def setRconPassword_keeps)
  have logged: "fs (sendCommand w now stamp command) = fs (writeToLog w ?line)"
    using assms by (rule sendCommand_files)
  have same_fs: "fs (sendCommand (setRconPassword w p) now stamp command) =
      fs (sendCommand w now stamp command)"
    using acc acc'
    by (simp add: sendCommand_accepted writeToLog_setRconPassword setRconPassword_keeps)
  have same_ui: "commandOutput (sendCommand (setRconPassword w p) now stamp command) =
      commandOutput (sendCommand w now stamp command)"
    using acc acc' by (simp add: sendCommand_accepted setRconPassword_keeps)
  have lines: "writtenLines (journal (fs (sendCommand w now stamp command))) =
       writtenLines (journal (fs w)) @
         (if loggingDisabled w \<or> logFileName w \<in> refused (fs w) then [] else [?line])"
    unfolding logged by (rule writeToLog_writtenLines)
  have stored: "files (fs (sendCommand w now stamp command)) =
        (if loggingDisabled w \<or> logFileName w \<in> refused (fs w) then files (fs w)
         else (files (fs w))(logFileName w \<mapsto> storedContent (fs w) (logFileName w) @ ?line))"
    unfolding logged by (rule writeToLog_files)
  have unredacted: "\<not> loggingDisabled w \<and> logFileName w \<notin> refused (fs w)
        \<and> occursIn (getRconPassword (rconServer (rcon w))) command \<longrightarrow>
        (\<exists>line \<in> set (writtenLines (journal (fs (sendCommand w now stamp command)))).
           occursIn (getRconPassword (rconServer (rcon w))) line)"
    using sendCommand_unredacted [OF assms, of command stamp] by blast
  show ?thesis
    by (intro conjI) (rule lines, rule stored, rule same_fs, rule same_ui,
      rule sendCommand_sends [OF assms], rule unredacted)
qed


theorem logged_line_without_password_witness:
  "1000 \<le> 0 - lastCommand sampleWindow
   \<and> \<not> loggingDisabled sampleWindow
   \<and> logFileName sampleWindow \<notin> refused (fs sampleWindow)
   \<and> occursIn (getRconPassword (rconServer (rcon sampleWindow))) ''tell 2 secret''
   \<and> writtenLines (journal (fs (sendCommand sampleWindow 0 sampleStamp ''tell 2 secret''))) =
       [''Fri Oct 30 04:07:00 2026 > tell 2 secret\<newline>\<newline>'']
   \<and> (\<exists>line \<in> set (writtenLines (journal (fs (sendCommand sampleWindow 0 sampleStamp ''tell 2 secret'')))).
        occursIn ''secret'' line)
   \<and> fs (sendCommand (setRconPassword sampleWindow ''hunter2'') 0 sampleStamp ''tell 2 secret'') =
       fs (sendCommand sampleWindow 0 sampleStamp ''tell 2 secret'')
   \<and> rconDatagrams (sendCommand sampleWindow 0 sampleStamp ''tell 2 secret'') =
       [frame ''rcon secret tell 2 secret'']"
proof -
  have ok: "1000 \<le> 0 - lastCommand sampleWindow"
    by (simp add: sample_fields)
  have on: "\<not> loggingDisabled sampleWindow"
    by (rule sample_logging(1))
  have openable: "logFileName sampleWindow \<notin> refused (fs sampleWindow)"
    by (simp add: sample_fields emptyDisk_def)
  have pw: "getRconPassword (rconServer (rcon sampleWindow)) = ''secret''"
    by (rule sample_fields)
  have held: "occursIn (getRconPassword (rconServer (rcon sampleWindow))) ''tell 2 secret''"
    unfolding pw by simp
  note fact = logged_line_without_password [OF ok, of sampleStamp "''tell 2 secret''" "''hunter2''"]
  note lines = fact [THEN conjunct1]
  note same = fact [THEN conjunct2, THEN conjunct2, THEN conjunct1]
  note wire = fact [THEN conjunct2, THEN conjunct2, THEN conjunct2, THEN conjunct2, THEN conjunct1]
  note unredacted = fact [THEN conjunct2, THEN conjunct2, THEN conjunct2, THEN conjunct2,
      THEN conjunct2]
  from lines on openable
  have written: "writtenLines (journal (fs (sendCommand sampleWindow 0 sampleStamp ''tell 2 secret''))) =
       [''Fri Oct 30 04:07:00 2026 > tell 2 secret\<newline>\<newline>'']"
    by (simp add: sample_fields emptyDisk_def sampleStamp_def)
  from unredacted on openable held
  have "\<exists>line \<in> set (writtenLines (journal (fs (sendCommand sampleWindow 0 sampleStamp ''tell 2 secret'')))).
        occursIn (getRconPassword (rconServer (rcon sampleWindow))) line"
    by blast
  then have shown: "\<exists>line \<in> set (writtenLines (journal (fs (sendCommand sampleWindow 0 sampleStamp ''tell 2 secret'')))).
        occursIn ''secret'' line"
    unfolding pw .
  from wire
  have sent: "rconDatagrams (sendCommand sampleWindow 0 sampleStamp ''tell 2 secret'') =
       [frame ''rcon secret tell 2 secret'']"
    by (simp add: sample_fields)
  show ?thesis
    by (intro conjI) (rule ok, rule on, rule openable, rule held, rule written, rule shown,
      rule same, rule sent)
qed

text \<open>
  The claim as stated, that the password never appears in a logged line, fails where
  the user's own command holds the password: connected with the password \<open>secret\<close>,
  the accepted command \<open>say secret\<close> is logged as typed.
\<close>

theorem password_in_logged_line:
  "getRconPassword (rconServer (rcon sampleWindow)) = ''secret''
   \<and> accepted sampleWindow (sendCommand sampleWindow 0 sampleStamp ''say secret'')
   \<and> writtenLines (journal (fs (sendCommand sampleWindow 0 sampleStamp ''say secret''))) =
       [''Fri Oct 30 04:07:00 2026 > say secret\<newline>\<newline>'']
   \<and> files (fs (sendCommand sampleWindow 0 sampleStamp ''say secret'')) ''log_127.0.0.1_28960.log'' =
       Some ''Fri Oct 30 04:07:00 2026 > say secret\<newline>\<newline>''
   \<and> occursIn (getRconPassword (rconServer (rcon sampleWindow)))
        ''Fri Oct 30 04:07:00 2026 > say secret\<newline>\<newline>''"
proof -
  have ok: "1000 \<le> 0 - lastCommand sampleWindow"
    by (simp add: sample_fields)
  have written: "writtenLines (journal (fs (sendCommand sampleWindow 0 sampleStamp ''say secret''))) =
       [''Fri Oct 30 04:07:00 2026 > say secret\<newline>\<newline>'']"
    using sample_logging(1)
    by (simp add: sendCommand_files [OF ok] writeToLog_writtenLines sample_fields
          sampleWindow_logFileName emptyDisk_def sampleStamp_def)
  have stored: "files (fs (sendCommand sampleWindow 0 sampleStamp ''say secret'')) ''log_127.0.0.1_28960.log'' =
       Some ''Fri Oct 30 04:07:00 2026 > say secret\<newline>\<newline>''"
    using sample_logging(1)
    by (simp add: sendCommand_files [OF ok] writeToLog_files sample_fields
          sampleWindow_logFileName emptyDisk_def sampleStamp_def storedContent_def)
  have occurs: "occursIn ''secret'' ''Fri Oct 30 04:07:00 2026 > say secret\<newline>\<newline>''"
    by simp
  show ?thesis
    using written stored occurs by (simp add: sample_fields accepted_iff)
qed

end
